theory Spec2Isabelle
  imports Complex_Main
begin

section \<open>Values of the bridge\<close>

text \<open>
  The bridge (\<^verbatim>\<open>src/app.py\<close>) reads telemetry lines from a telnet connection, decodes
  them into numbers, translates channel 0 through a status table and publishes changed
  values on an MQTT bus.

  Python strings are modelled as \<^typ>\<open>string\<close>, one \<^typ>\<open>char\<close> per code point below 256
  (the labels of the status table need \<open>0xDC\<close> and \<open>0xFC\<close>, the unit of temperature
  \<open>0xB0\<close>). Python's unbounded \<^verbatim>\<open>int\<close> is \<^typ>\<open>int\<close>.

  A Python \<^verbatim>\<open>float\<close> is a binary64 number: a finite one is a rational, and there are the
  two infinities and NaN. Comparison and absolute value of floats are exact operations
  and are defined here; the operations that round (parsing a literal, converting an
  integer, subtracting) are builtins of the language, taken as parameters below.
\<close>

datatype pyfloat = Finite rat | PosInf | NegInf | NaN

datatype pyval = PInt int | PFloat pyfloat | PStr string

fun fabs :: "pyfloat \<Rightarrow> pyfloat" where
  "fabs (Finite q) = Finite \<bar>q\<bar>"
| "fabs PosInf = PosInf"
| "fabs NegInf = PosInf"
| "fabs NaN = NaN"

text \<open>\<^verbatim>\<open>x < y\<close> on floats: every comparison with NaN is false.\<close>

fun flt :: "pyfloat \<Rightarrow> pyfloat \<Rightarrow> bool" where
  "flt NaN _ = False"
| "flt _ NaN = False"
| "flt (Finite a) (Finite b) = (a < b)"
| "flt (Finite a) PosInf = True"
| "flt (Finite a) NegInf = False"
| "flt PosInf _ = False"
| "flt NegInf NegInf = False"
| "flt NegInf _ = True"

text \<open>
  The builtins of Python that the bridge calls and that are not part of the repository:
  \<^verbatim>\<open>int(s)\<close> and \<^verbatim>\<open>float(s)\<close> on a string (\<open>None\<close> is \<^verbatim>\<open>ValueError\<close>),
  \<^verbatim>\<open>float(i)\<close> on an integer (\<open>None\<close> is \<^verbatim>\<open>OverflowError\<close>) and the subtraction of
  two floats. Every function below that needs them takes them as its first argument, so
  the theorems hold for whatever these builtins compute.
\<close>

record builtins =
  int_of_str :: "string \<Rightarrow> int option"
  float_of_str :: "string \<Rightarrow> pyfloat option"
  float_of_int :: "int \<Rightarrow> pyfloat option"
  float_sub :: "pyfloat \<Rightarrow> pyfloat \<Rightarrow> pyfloat"

subsection \<open>A small instance of the builtins\<close>

text \<open>
  For evaluating the functions on concrete lines: decimal integers as \<^verbatim>\<open>int\<close> reads
  them (an optional sign, digits, single underscores between digits), plain decimal
  literals \<open>digits.digits\<close> for floats, and exact arithmetic. It agrees with CPython
  wherever the exact result is a binary64 number, which is the case for every input
  evaluated in this theory.
\<close>

definition is_digit :: "char \<Rightarrow> bool" where
  "is_digit c = (48 \<le> (of_char c :: nat) \<and> (of_char c :: nat) \<le> 57)"

definition digit_val :: "char \<Rightarrow> nat" where
  "digit_val c = of_char c - 48"

fun digits_nat :: "bool \<Rightarrow> nat \<Rightarrow> string \<Rightarrow> nat option" where
  "digits_nat prev acc [] = (if prev then Some acc else None)"
| "digits_nat prev acc (c # cs) =
     (if is_digit c then digits_nat True (acc * 10 + digit_val c) cs
      else if c = CHR ''_'' \<and> prev then digits_nat False acc cs
      else None)"

fun signed :: "string \<Rightarrow> bool \<times> string" where
  "signed [] = (False, [])"
| "signed (c # cs) =
     (if c = CHR ''-'' then (True, cs) else if c = CHR ''+'' then (False, cs) else (False, c # cs))"

definition dec_int :: "string \<Rightarrow> int option" where
  "dec_int s =
     (case signed s of (neg, ds) \<Rightarrow>
        (case digits_nat False 0 ds of
           None \<Rightarrow> None
         | Some n \<Rightarrow> Some (if neg then - int n else int n)))"

fun plain_digits :: "nat \<Rightarrow> string \<Rightarrow> nat option" where
  "plain_digits acc [] = Some acc"
| "plain_digits acc (c # cs) =
     (if is_digit c then plain_digits (acc * 10 + digit_val c) cs else None)"

definition dec_float :: "string \<Rightarrow> pyfloat option" where
  "dec_float s =
     (case signed s of (neg, ds) \<Rightarrow>
        let ip = takeWhile (\<lambda>c. c \<noteq> CHR ''.'') ds;
            fp = drop (Suc (length ip)) ds
        in if length ip = length ds \<or> (ip = [] \<and> fp = []) then None
           else (case (plain_digits 0 ip, plain_digits 0 fp) of
                   (Some i, Some f) \<Rightarrow>
                     let q = of_nat i + of_nat f / of_nat (10 ^ length fp)
                     in Some (Finite (if neg then - q else q))
                 | _ \<Rightarrow> None))"

definition exact_of_int :: "int \<Rightarrow> pyfloat option" where
  "exact_of_int i = Some (Finite (of_int i))"

fun exact_sub :: "pyfloat \<Rightarrow> pyfloat \<Rightarrow> pyfloat" where
  "exact_sub (Finite a) (Finite b) = Finite (a - b)"
| "exact_sub NaN _ = NaN"
| "exact_sub _ NaN = NaN"
| "exact_sub PosInf PosInf = NaN"
| "exact_sub NegInf NegInf = NaN"
| "exact_sub PosInf _ = PosInf"
| "exact_sub NegInf _ = NegInf"
| "exact_sub (Finite a) PosInf = NegInf"
| "exact_sub (Finite a) NegInf = PosInf"

definition py0 :: builtins where
  "py0 = \<lparr> int_of_str = dec_int, float_of_str = dec_float,
           float_of_int = exact_of_int, float_sub = exact_sub \<rparr>"

section \<open>The value decoder\<close>

text \<open>
  \<^verbatim>\<open>str.strip()\<close> and \<^verbatim>\<open>str.split()\<close> without arguments work on Python's whitespace,
  which below code point 256 is: tab to carriage return (9 to 13), the separators 28 to
  31, the space, \<open>0x85\<close> and \<open>0xA0\<close>.
\<close>

definition is_space :: "char \<Rightarrow> bool" where
  "is_space c =
     (let n = (of_char c :: nat)
      in (9 \<le> n \<and> n \<le> 13) \<or> (28 \<le> n \<and> n \<le> 32) \<or> n = 133 \<or> n = 160)"

definition strip :: "string \<Rightarrow> string" where
  "strip s = rev (dropWhile is_space (rev (dropWhile is_space s)))"

text \<open>\<^verbatim>\<open>s.split()\<close>: the maximal runs of characters that are not whitespace, in order.\<close>

fun split_acc :: "string \<Rightarrow> string \<Rightarrow> string list" where
  "split_acc cur [] = (if cur = [] then [] else [rev cur])"
| "split_acc cur (c # cs) =
     (if is_space c then (if cur = [] then split_acc [] cs else rev cur # split_acc [] cs)
      else split_acc (c # cur) cs)"

definition split :: "string \<Rightarrow> string list" where
  "split s = split_acc [] s"

definition startswith :: "string \<Rightarrow> string \<Rightarrow> bool" where
  "startswith s p = (take (length p) s = p)"

text \<open>
  The body of the \<^verbatim>\<open>for\<close> loop of \<^verbatim>\<open>parse_pm_line\<close>:
  \<^verbatim>\<open>float(v) if "." in v else int(v)\<close>, with \<^verbatim>\<open>ValueError\<close> caught and replaced by
  \<^verbatim>\<open>None\<close>.
\<close>

definition parse_token :: "builtins \<Rightarrow> string \<Rightarrow> pyval option" where
  "parse_token py v =
     (if CHR ''.'' \<in> set v then map_option PFloat (float_of_str py v)
      else map_option PInt (int_of_str py v))"

text \<open>\<^verbatim>\<open>parse_pm_line\<close>; the outer \<open>None\<close> is Python's \<^verbatim>\<open>None\<close> result.\<close>

definition parse_pm_line :: "builtins \<Rightarrow> string \<Rightarrow> pyval option list option" where
  "parse_pm_line py line =
     (if line = [] \<or> \<not> startswith line ''pm'' then None
      else let parts = split (strip line)
           in if length parts < 2 then None
              else Some (map (parse_token py) (tl parts)))"

section \<open>The status table and the channel translator\<close>

definition ZK_STATUS_MAP :: "(int \<times> string) list" where
  "ZK_STATUS_MAP =
     [(0, ''Unbekannt''), (1, ''Aus''), (2, ''Startvorbereitung''), (3, ''Kessel Start''),
      (4, ''Z'' @ [CHR 0xFC] @ ''nd'' @ [CHR 0xFC] @ ''berwachung''),
      (5, ''Z'' @ [CHR 0xFC] @ ''ndung''),
      (6, [CHR 0xDC] @ ''bergang LB''), (7, ''Leistungsbrand''),
      (8, ''Gluterhaltung''), (9, ''Warten auf EA''), (10, ''Entaschung''), (11, ''-''),
      (12, ''Putzen'')]"

text \<open>
  A dictionary with integer keys finds a key by numeric equality (equal numbers have
  equal hashes): an integer finds itself, a float finds the integer it is equal to, a
  string finds nothing.
\<close>

fun num_eq_key :: "pyval \<Rightarrow> int \<Rightarrow> bool" where
  "num_eq_key (PInt i) k = (i = k)"
| "num_eq_key (PFloat (Finite q)) k = (q = of_int k)"
| "num_eq_key (PFloat _) k = False"
| "num_eq_key (PStr _) k = False"

fun dict_get :: "(int \<times> 'a) list \<Rightarrow> pyval \<Rightarrow> 'a option" where
  "dict_get [] v = None"
| "dict_get ((k, x) # kvs) v = (if num_eq_key v k then Some x else dict_get kvs v)"

text \<open>
  Lines 216 to 219 of \<^verbatim>\<open>Bridge.start\<close>:
  \<^verbatim>\<open>ZK_STATUS_MAP.get(val, ZK_STATUS_MAP[0])\<close> for index 0, the value itself otherwise.
  The default \<^verbatim>\<open>ZK_STATUS_MAP[0]\<close> is evaluated first and would raise \<^verbatim>\<open>KeyError\<close>
  if the key 0 were missing: the result is \<open>None\<close> then.
\<close>

definition translate :: "nat \<Rightarrow> pyval \<Rightarrow> pyval option" where
  "translate idx val =
     (if idx = 0 then
        (case dict_get ZK_STATUS_MAP (PInt 0) of
           None \<Rightarrow> None
         | Some dflt \<Rightarrow>
             Some (PStr (case dict_get ZK_STATUS_MAP val of None \<Rightarrow> dflt | Some l \<Rightarrow> l)))
      else Some val)"

section \<open>The change filter\<close>

text \<open>\<^verbatim>\<open>float(a)\<close> on a value of the bridge; \<open>None\<close> is the exception it raises.\<close>

fun to_float :: "builtins \<Rightarrow> pyval \<Rightarrow> pyfloat option" where
  "to_float py (PInt i) = float_of_int py i"
| "to_float py (PFloat f) = Some f"
| "to_float py (PStr s) = float_of_str py s"

fun is_float :: "pyval \<Rightarrow> bool" where
  "is_float (PFloat _) = True"
| "is_float _ = False"

text \<open>
  \<^verbatim>\<open>almost_equal\<close>, with the tolerance \<^verbatim>\<open>FLOAT_EPS\<close> as an argument. An exception of
  a conversion is caught and the result is \<^verbatim>\<open>False\<close>.
\<close>

definition almost_equal :: "builtins \<Rightarrow> pyfloat \<Rightarrow> pyval \<Rightarrow> pyval \<Rightarrow> bool" where
  "almost_equal py eps a b =
     (if is_float a \<or> is_float b then
        (case to_float py a of
           None \<Rightarrow> False
         | Some x \<Rightarrow>
             (case to_float py b of
                None \<Rightarrow> False
              | Some y \<Rightarrow> flt (fabs (float_sub py x y)) eps))
      else a = b)"

section \<open>Configuration, messages and events\<close>

text \<open>
  The channel table \<^verbatim>\<open>channel_map\<close> comes from a module that is not part of the
  sources; it is a parameter: a dictionary in insertion order, from the channel index to
  an entry with the key \<^verbatim>\<open>alias\<close> and the optional keys \<^verbatim>\<open>mqtt_name\<close>,
  \<^verbatim>\<open>label\<close> and \<^verbatim>\<open>unit\<close>. The settings read from the environment are parameters
  too.
\<close>

record channel_entry =
  entry_alias :: string
  mqtt_name :: "string option"
  label :: "string option"
  unit :: "string option"

record config =
  MQTT_BASE :: string
  QOS :: int
  FLOAT_EPS :: pyfloat
  MQTT_RETAIN :: bool
  channel_map :: "(nat \<times> channel_entry) list"

definition MQTT_STATUS :: "config \<Rightarrow> string" where
  "MQTT_STATUS cfg = MQTT_BASE cfg @ ''/status''"

text \<open>\<^verbatim>\<open>entry.get(key, entry["alias"])\<close> for the three optional keys.\<close>

definition get_mqtt_name :: "channel_entry \<Rightarrow> string" where
  "get_mqtt_name e = (case mqtt_name e of Some n \<Rightarrow> n | None \<Rightarrow> entry_alias e)"

definition get_label :: "channel_entry \<Rightarrow> string" where
  "get_label e = (case label e of Some l \<Rightarrow> l | None \<Rightarrow> entry_alias e)"

definition get_unit :: "channel_entry \<Rightarrow> string" where
  "get_unit e = (case unit e of Some u \<Rightarrow> u | None \<Rightarrow> [])"

text \<open>
  A discovery descriptor is a dictionary that \<^verbatim>\<open>json.dumps\<close> turns into text; the
  model keeps the document, with the keys of an object in insertion order.
\<close>

datatype json = JStr string | JList "json list" | JObj "(string \<times> json) list"

datatype mqtt_payload = Value pyval | Json json

record message =
  topic :: string
  payload :: mqtt_payload
  qos :: int
  retain :: bool

text \<open>
  A call of the outside world (a publish on the bus, a telnet connect, read or close)
  either returns or raises an exception. The bridge never looks at what a publish
  returns.
\<close>

datatype outcome = Returned | Raised

datatype level = INFO | WARNING | ERROR

datatype event =
    Log level
  | Publish message
  | TelnetConnect
  | TelnetRead
  | TelnetClose outcome
  | Sleep nat

type_synonym bus = "message \<Rightarrow> outcome"




type_synonym cache = "nat \<Rightarrow> pyval option"

section \<open>Discovery\<close>

text \<open>\<^verbatim>\<open>needle in hay\<close> on strings.\<close>

fun contains :: "string \<Rightarrow> string \<Rightarrow> bool" where
  "contains [] needle = (needle = [])"
| "contains (c # cs) needle = (startswith (c # cs) needle \<or> contains cs needle)"

definition degree_C :: string where
  "degree_C = [CHR 0xB0, CHR ''C'']"

definition get_device_class :: "string \<Rightarrow> string \<Rightarrow> string option" where
  "get_device_class name u =
     (if u = degree_C then Some ''temperature''
      else if u = ''%'' then
        (if contains name ''Feuchte'' \<or> contains name ''Luftfeuchte'' then Some ''humidity''
         else None)
      else if u = ''bar'' then Some ''pressure''
      else if contains name ''Leistung'' then Some ''power''
      else None)"

definition device :: json where
  "device = JObj [(''identifiers'', JList [JStr ''nano_pk'']), (''manufacturer'', JStr ''ETA''),
                  (''model'', JStr ''nanoPK Telnet''), (''name'', JStr ''ETA nanoPK'')]"

definition availability :: "config \<Rightarrow> json" where
  "availability cfg =
     JList [JObj [(''topic'', JStr (MQTT_STATUS cfg)), (''payload_available'', JStr ''online''),
                  (''payload_not_available'', JStr ''offline'')]]"

text \<open>
  The body of the loop over \<^verbatim>\<open>channel_map.items()\<close> up to the publish: the descriptor
  of one entry. \<^verbatim>\<open>if dc:\<close> holds for a string that is not empty.
\<close>

definition sensor_payload :: "config \<Rightarrow> nat \<Rightarrow> channel_entry \<Rightarrow> (string \<times> json) list" where
  "sensor_payload cfg idx e =
     [(''name'', JStr (get_label e)),
      (''state_topic'', JStr (MQTT_BASE cfg @ ''/'' @ get_mqtt_name e)),
      (''unique_id'', JStr (''nano_pk_'' @ get_mqtt_name e)),
      (''device'', device),
      (''availability'', availability cfg)]
     @ (if idx \<noteq> 0 then
          [(''unit_of_measurement'', JStr (get_unit e)), (''state_class'', JStr ''measurement'')]
          @ (case get_device_class (get_label e) (get_unit e) of
               None \<Rightarrow> []
             | Some dc \<Rightarrow> if dc = [] then [] else [(''device_class'', JStr dc)])
        else [])"

definition sensor_message :: "config \<Rightarrow> nat \<Rightarrow> channel_entry \<Rightarrow> message" where
  "sensor_message cfg idx e =
     \<lparr> topic = ''homeassistant/sensor/nano_pk_'' @ get_mqtt_name e @ ''/config'',
       payload = Json (JObj (sensor_payload cfg idx e)), qos = QOS cfg, retain = True \<rparr>"

text \<open>The value that a descriptor gives to a key, if it has the key.\<close>

definition descriptor_field :: "message \<Rightarrow> string \<Rightarrow> json option" where
  "descriptor_field m k = (case payload m of Json (JObj kvs) \<Rightarrow> map_of kvs k | _ \<Rightarrow> None)"

definition connectivity_message :: "config \<Rightarrow> message" where
  "connectivity_message cfg =
     \<lparr> topic = ''homeassistant/binary_sensor/nano_pk_status/config'',
       payload = Json (JObj [(''name'', JStr ''NanoPK Status''),
                             (''state_topic'', JStr (MQTT_STATUS cfg)),
                             (''payload_on'', JStr ''online''),
                             (''payload_off'', JStr ''offline''),
                             (''device_class'', JStr ''connectivity''),
                             (''unique_id'', JStr ''nano_pk_status''),
                             (''device'', device),
                             (''availability'', availability cfg)]),
       qos = QOS cfg, retain = True \<rparr>"

text \<open>
  The loop of \<^verbatim>\<open>send_discovery\<close>. Nothing catches an exception of a publish here: the
  function stops at the first one.
\<close>

fun send_sensors :: "config \<Rightarrow> bus \<Rightarrow> (nat \<times> channel_entry) list \<Rightarrow> outcome \<times> event list" where
  "send_sensors cfg bus [] = (Returned, [])"
| "send_sensors cfg bus ((idx, e) # rest) =
     (let m = sensor_message cfg idx e
      in case bus m of
           Raised \<Rightarrow> (Raised, [Publish m])
         | Returned \<Rightarrow>
             (case send_sensors cfg bus rest of (r, es) \<Rightarrow> (r, Publish m # Log INFO # es)))"

definition send_discovery :: "config \<Rightarrow> bus \<Rightarrow> outcome \<times> event list" where
  "send_discovery cfg bus =
     (case send_sensors cfg bus (channel_map cfg) of
        (Raised, es) \<Rightarrow> (Raised, es)
      | (Returned, es) \<Rightarrow>
          (let m = connectivity_message cfg
           in case bus m of
                Raised \<Rightarrow> (Raised, es @ [Publish m])
              | Returned \<Rightarrow> (Returned, es @ [Publish m, Log INFO])))"

section \<open>The telnet connection\<close>

text \<open>
  \<^verbatim>\<open>connect_telnet_with_backoff\<close>. The outside world is the function \<open>conn\<close>: the
  outcome of the \<open>k\<close>-th call of \<^verbatim>\<open>telnetlib.Telnet\<close> (counted from 0). The loop has no
  exit but the \<^verbatim>\<open>return\<close>, so the model is a partial function: \<open>None\<close> means that the
  call never returns. The result is what happened until it returned.
\<close>

partial_function (option) connect_loop :: "(nat \<Rightarrow> outcome) \<Rightarrow> nat \<Rightarrow> nat \<Rightarrow> event list option" where
  "connect_loop conn k delay =
     (case conn k of
        Returned \<Rightarrow> Some [Log INFO, TelnetConnect, Log INFO]
      | Raised \<Rightarrow>
          Option.bind (connect_loop conn (Suc k) (min (delay * 2) 30))
            (\<lambda>es. Some ([Log INFO, TelnetConnect, Log WARNING, Sleep delay] @ es)))"

declare connect_loop.simps [code]

definition connect_telnet_with_backoff :: "(nat \<Rightarrow> outcome) \<Rightarrow> event list option" where
  "connect_telnet_with_backoff conn = connect_loop conn 0 1"

section \<open>The bridge loop\<close>

definition value_message :: "config \<Rightarrow> channel_entry \<Rightarrow> pyval \<Rightarrow> message" where
  "value_message cfg e p =
     \<lparr> topic = MQTT_BASE cfg @ ''/'' @ get_mqtt_name e, payload = Value p,
       qos = QOS cfg, retain = MQTT_RETAIN cfg \<rparr>"

text \<open>
  The loop \<^verbatim>\<open>for idx, val in enumerate(values)\<close> of \<^verbatim>\<open>Bridge.start\<close> (lines 208 to
  227), from the index \<open>idx\<close> on, with the cache \<^verbatim>\<open>last_values\<close> passed through. An
  exception leaves the loop: the result is \<^const>\<open>Raised\<close>, with the cache and the events
  up to there.
\<close>

fun publish_values ::
  "builtins \<Rightarrow> config \<Rightarrow> bus \<Rightarrow> nat \<Rightarrow> pyval option list \<Rightarrow> cache \<Rightarrow> outcome \<times> cache \<times> event list"
where
  "publish_values py cfg bus idx [] lv = (Returned, lv, [])"
| "publish_values py cfg bus idx (val # rest) lv =
     (case map_of (channel_map cfg) idx of
        None \<Rightarrow> publish_values py cfg bus (Suc idx) rest lv
      | Some e \<Rightarrow>
          (case val of
             None \<Rightarrow> publish_values py cfg bus (Suc idx) rest lv
           | Some v \<Rightarrow>
               (case translate idx v of
                  None \<Rightarrow> (Raised, lv, [])
                | Some p \<Rightarrow>
                    if (case lv idx of None \<Rightarrow> False
                        | Some prev \<Rightarrow> almost_equal py (FLOAT_EPS cfg) prev p)
                    then publish_values py cfg bus (Suc idx) rest lv
                    else
                      (let m = value_message cfg e p
                       in case bus m of
                            Raised \<Rightarrow> (Raised, lv, [Publish m])
                          | Returned \<Rightarrow>
                              (case publish_values py cfg bus (Suc idx) rest (lv(idx \<mapsto> p)) of
                                 (r, lv', es) \<Rightarrow> (r, lv', Publish m # es))))))"

text \<open>
  What one pass of the \<^verbatim>\<open>while\<close> loop meets outside: the result of
  \<^verbatim>\<open>read_until\<close> (the text that the bytes decode to, empty after a timeout, or an
  exception), the bus, the outcome of closing the telnet connection, and the telnet
  server at each connection attempt.
\<close>

datatype read_result = ReadRaised | ReadData string

record world =
  read :: read_result
  bus_of :: bus
  close_of :: outcome
  conn_of :: "nat \<Rightarrow> outcome"

definition status_message :: "config \<Rightarrow> string \<Rightarrow> message" where
  "status_message cfg s =
     \<lparr> topic = MQTT_STATUS cfg, payload = Value (PStr s), qos = QOS cfg, retain = True \<rparr>"

text \<open>
  The \<^verbatim>\<open>except\<close> branch of the loop (lines 229 to 249). The exceptions of
  \<^verbatim>\<open>close\<close> and of the two publishes are caught and dropped: what follows does not
  depend on their outcomes. \<open>None\<close> means that the reconnection never returns.
\<close>

definition reconnect :: "config \<Rightarrow> world \<Rightarrow> event list option" where
  "reconnect cfg w =
     Option.bind (connect_telnet_with_backoff (conn_of w))
       (\<lambda>es. Some ([Log ERROR, TelnetClose (close_of w),
                    Publish (status_message cfg ''offline''), Sleep 2]
                   @ es @ [Publish (status_message cfg ''online'')]))"

text \<open>One pass of \<^verbatim>\<open>while self.running\<close>: the new cache and the events.\<close>

definition iteration :: "builtins \<Rightarrow> config \<Rightarrow> world \<Rightarrow> cache \<Rightarrow> (cache \<times> event list) option" where
  "iteration py cfg w lv =
     (case read w of
        ReadRaised \<Rightarrow> Option.bind (reconnect cfg w) (\<lambda>es. Some (lv, TelnetRead # es))
      | ReadData raw \<Rightarrow>
          if raw = [] then Some (lv, [TelnetRead])
          else let line = strip raw
               in if line = [] then Some (lv, [TelnetRead])
                  else (case parse_pm_line py line of
                          None \<Rightarrow> Some (lv, [TelnetRead])
                        | Some vals \<Rightarrow>
                            if vals = [] then Some (lv, [TelnetRead])
                            else (case publish_values py cfg (bus_of w) 0 vals lv of
                                    (Returned, lv', es) \<Rightarrow> Some (lv', TelnetRead # es)
                                  | (Raised, lv', es) \<Rightarrow>
                                      Option.bind (reconnect cfg w)
                                        (\<lambda>es'. Some (lv', TelnetRead # es @ es')))))"

text \<open>Several passes in a row, one world for each.\<close>

fun run :: "builtins \<Rightarrow> config \<Rightarrow> world list \<Rightarrow> cache \<Rightarrow> (cache \<times> event list) option" where
  "run py cfg [] lv = Some (lv, [])"
| "run py cfg (w # ws) lv =
     (case iteration py cfg w lv of
        None \<Rightarrow> None
      | Some (lv', es) \<Rightarrow>
          (case run py cfg ws lv' of
             None \<Rightarrow> None
           | Some (lv'', es') \<Rightarrow> Some (lv'', es @ es')))"

text \<open>The publishes among the events, in order.\<close>

fun published :: "event list \<Rightarrow> message list" where
  "published [] = []"
| "published (Publish m # es) = m # published es"
| "published (_ # es) = published es"

text \<open>The delays slept among the events, in order.\<close>

fun slept :: "event list \<Rightarrow> nat list" where
  "slept [] = []"
| "slept (Sleep d # es) = d # slept es"
| "slept (_ # es) = slept es"

text \<open>The number of connection attempts among the events.\<close>

fun attempts :: "event list \<Rightarrow> nat" where
  "attempts [] = 0"
| "attempts (TelnetConnect # es) = Suc (attempts es)"
| "attempts (_ # es) = attempts es"

section \<open>The change rule as the specification words it\<close>

text \<open>
  The absolute difference of two values as floats, when both convert, and the comparison
  rule of the change filter: with a float on either side, unchanged means an absolute
  difference strictly below the tolerance; without, it means equality. A value is to be
  published when nothing is cached for its index or the cached value is not unchanged.
\<close>

definition abs_diff :: "builtins \<Rightarrow> pyval \<Rightarrow> pyval \<Rightarrow> pyfloat option" where
  "abs_diff py a b =
     (case (to_float py a, to_float py b) of
        (Some x, Some y) \<Rightarrow> Some (fabs (float_sub py x y))
      | _ \<Rightarrow> None)"

definition unchanged :: "builtins \<Rightarrow> pyfloat \<Rightarrow> pyval \<Rightarrow> pyval \<Rightarrow> bool" where
  "unchanged py eps c p =
     (if is_float c \<or> is_float p
      then (case abs_diff py c p of Some d \<Rightarrow> flt d eps | None \<Rightarrow> False)
      else c = p)"

definition should_publish :: "builtins \<Rightarrow> pyfloat \<Rightarrow> pyval option \<Rightarrow> pyval \<Rightarrow> bool" where
  "should_publish py eps cached p =
     (case cached of None \<Rightarrow> True | Some c \<Rightarrow> \<not> unchanged py eps c p)"

text \<open>
  The messages that a decoded line calls for, from the index \<open>idx\<close> on: for every
  position that has a value and an entry in the channel table, the translated value, if
  it is to be published against the cache as it is before the line.
\<close>

fun line_publishes :: "builtins \<Rightarrow> config \<Rightarrow> cache \<Rightarrow> nat \<Rightarrow> pyval option list \<Rightarrow> message list" where
  "line_publishes py cfg lv idx [] = []"
| "line_publishes py cfg lv idx (val # rest) =
     (case (map_of (channel_map cfg) idx, val) of
        (Some e, Some v) \<Rightarrow>
          (case translate idx v of
             Some p \<Rightarrow>
               if should_publish py (FLOAT_EPS cfg) (lv idx) p then [value_message cfg e p] else []
           | None \<Rightarrow> [])
      | _ \<Rightarrow> [])
     @ line_publishes py cfg lv (Suc idx) rest"

text \<open>A list of messages up to the first one at which the bus raises, that one included.\<close>

fun until_raised :: "bus \<Rightarrow> message list \<Rightarrow> message list" where
  "until_raised bus [] = []"
| "until_raised bus (m # ms) =
     (case bus m of Raised \<Rightarrow> [m] | Returned \<Rightarrow> m # until_raised bus ms)"

section \<open>A configuration for examples\<close>

text \<open>
  Three channels (the status, a temperature and a pressure), retained values, and the
  tolerance 1/1024, a binary64 number close to the default 0.001.
\<close>

definition cfg1 :: config where
  "cfg1 =
     \<lparr> MQTT_BASE = ''nano_pk'', QOS = 1, FLOAT_EPS = Finite (1 / 1024), MQTT_RETAIN = True,
       channel_map =
         [(0, \<lparr> entry_alias = ''zk'', mqtt_name = Some ''kessel_status'',
                label = Some ''Kessel'', unit = None \<rparr>),
          (1, \<lparr> entry_alias = ''temp'', mqtt_name = None,
                label = Some ''Kesseltemperatur'', unit = Some degree_C \<rparr>),
          (2, \<lparr> entry_alias = ''druck'', mqtt_name = None, label = None,
                unit = Some ''bar'' \<rparr>)] \<rparr>"

text \<open>A channel in percent whose label names a power.\<close>

definition e_power_percent :: channel_entry where
  "e_power_percent =
     \<lparr> entry_alias = ''leistung'', mqtt_name = None, label = Some ''Leistung Kessel'',
       unit = Some ''%'' \<rparr>"

text \<open>A bus on which every publish to the topic of the temperature raises.\<close>

definition bus_temp_raises :: bus where
  "bus_temp_raises = (\<lambda>m. if topic m = ''nano_pk/temp'' then Raised else Returned)"

definition e_temp :: channel_entry where
  "e_temp = \<lparr> entry_alias = ''temp'', mqtt_name = None,
              label = Some ''Kesseltemperatur'', unit = Some degree_C \<rparr>"

text \<open>The same configuration with a tolerance of 0.\<close>

definition cfg_eps0 :: config where
  "cfg_eps0 = cfg1 \<lparr> FLOAT_EPS := Finite 0 \<rparr>"

text \<open>A pass that reads a telemetry line while the bus and the telnet server work.\<close>

definition w_line :: world where
  "w_line =
     \<lparr> read = ReadData ''pm 3 45.5 2.25'', bus_of = (\<lambda>m. Returned), close_of = Returned,
       conn_of = (\<lambda>k. Returned) \<rparr>"





text \<open>The topics and payloads published in a run, in order.\<close>

definition sent_of :: "(cache \<times> event list) option \<Rightarrow> (string \<times> mqtt_payload) list option" where
  "sent_of res = map_option (\<lambda>(lv, es). map (\<lambda>m. (topic m, payload m)) (published es)) res"

text \<open>A pass that reads the same line while every publish of the temperature raises.\<close>

definition w_publish_raises :: world where
  "w_publish_raises =
     \<lparr> read = ReadData ''pm 3 45.5 2.25'', bus_of = bus_temp_raises, close_of = Returned,
       conn_of = (\<lambda>k. Returned) \<rparr>"

definition e_status :: channel_entry where
  "e_status = \<lparr> entry_alias = ''zk'', mqtt_name = Some ''kessel_status'',
                label = Some ''Kessel'', unit = None \<rparr>"


section \<open>Properties\<close>

subsection \<open>The string operations\<close>

text \<open>
  The three operations on strings mean what Python's do: a prefix, a substring, and the
  tokens of a split, which are not empty and hold no whitespace.
\<close>

lemma startswith_iff: "startswith s p = (\<exists>post. s = p @ post)"
proof
  assume "startswith s p"
  then have "s = p @ drop (length p) s"
    by (metis append_take_drop_id startswith_def)
  then show "\<exists>post. s = p @ post" ..
next
  assume "\<exists>post. s = p @ post"
  then show "startswith s p"
    by (auto simp: startswith_def)
qed

lemma contains_iff: "contains hay needle = (\<exists>pre post. hay = pre @ needle @ post)"
proof (induction hay)
  case Nil
  then show ?case by simp
next
  case (Cons c cs)
  show ?case
  proof
    assume "contains (c # cs) needle"
    then consider "startswith (c # cs) needle" | "contains cs needle" by auto
    then show "\<exists>pre post. c # cs = pre @ needle @ post"
    proof cases
      case 1
      then obtain post where "c # cs = needle @ post" by (auto simp: startswith_iff)
      then have "c # cs = [] @ needle @ post" by simp
      then show ?thesis by blast
    next
      case 2
      with Cons.IH obtain pre post where "cs = pre @ needle @ post" by blast
      then have "c # cs = (c # pre) @ needle @ post" by simp
      then show ?thesis by blast
    qed
  next
    assume "\<exists>pre post. c # cs = pre @ needle @ post"
    then obtain pre post where eq: "c # cs = pre @ needle @ post" by blast
    show "contains (c # cs) needle"
    proof (cases pre)
      case Nil
      with eq have "startswith (c # cs) needle" by (auto simp: startswith_iff)
      then show ?thesis by simp
    next
      case (Cons a pre')
      with eq have "cs = pre' @ needle @ post" by simp
      with Cons.IH have "contains cs needle" by blast
      then show ?thesis by simp
    qed
  qed
qed

lemma split_acc_nonempty: "t \<in> set (split_acc cur s) \<Longrightarrow> t \<noteq> []"
proof (induction cur s rule: split_acc.induct)
  case (1 cur)
  then show ?case by (simp split: if_splits)
next
  case (2 cur c cs)
  then show ?case by (simp split: if_splits) blast+
qed

lemma split_acc_nospace:
  "t \<in> set (split_acc cur s) \<Longrightarrow> \<forall>c \<in> set cur. \<not> is_space c \<Longrightarrow> c \<in> set t \<Longrightarrow> \<not> is_space c"
proof (induction cur s rule: split_acc.induct)
  case (1 cur)
  then show ?case by (simp split: if_splits)
next
  case (2 cur d cs)
  show ?case
  proof (cases "is_space d")
    case True
    with 2 show ?thesis by (cases "cur = []") auto
  next
    case False
    with 2 show ?thesis by auto
  qed
qed

lemma split_tokens: "t \<in> set (split s) \<Longrightarrow> t \<noteq> [] \<and> (\<forall>c \<in> set t. \<not> is_space c)"
  using split_acc_nonempty [of t "[]" s] split_acc_nospace [of t "[]" s]
  by (auto simp: split_def)

subsection \<open>The status channel\<close>

lemma dict_get_int_hit:
  assumes "0 \<le> i" and "i \<le> 12"
  shows "dict_get ZK_STATUS_MAP (PInt i) = Some (snd (ZK_STATUS_MAP ! nat i))"
proof -
  from assms have "i = 0 \<or> i = 1 \<or> i = 2 \<or> i = 3 \<or> i = 4 \<or> i = 5 \<or> i = 6 \<or> i = 7
      \<or> i = 8 \<or> i = 9 \<or> i = 10 \<or> i = 11 \<or> i = 12"
    by arith
  then show ?thesis
    by (elim disjE) (simp_all add: ZK_STATUS_MAP_def)
qed

lemma dict_get_int_miss:
  "i < 0 \<or> 12 < i \<Longrightarrow> dict_get ZK_STATUS_MAP (PInt i) = None"
  by (auto simp: ZK_STATUS_MAP_def)

lemma status_default: "dict_get ZK_STATUS_MAP (PInt 0) = Some ''Unbekannt''"
  by (simp add: ZK_STATUS_MAP_def)

lemma translate_int:
  "translate 0 (PInt i) =
     Some (PStr (if 0 \<le> i \<and> i \<le> 12 then snd (ZK_STATUS_MAP ! nat i) else ''Unbekannt''))"
proof (cases "0 \<le> i \<and> i \<le> 12")
  case True
  then show ?thesis
    by (simp add: translate_def dict_get_int_hit status_default)
next
  case False
  then have "i < 0 \<or> 12 < i" by arith
  then have "dict_get ZK_STATUS_MAP (PInt i) = None"
    by (rule dict_get_int_miss)
  with False show ?thesis
    by (auto simp add: translate_def status_default)
qed

text \<open>
  Claim C3. On channel 0 an integer code from 0 to 12 is translated to the label that
  the table of 13 entries gives it, and every other integer, negative ones too, to the
  label of code 0, \<open>Unbekannt\<close>. The translation has a result for every integer: the
  lookup never raises.
\<close>

theorem status_code_translation:
  "length ZK_STATUS_MAP = 13 \<and>
   (0 \<le> i \<and> i \<le> 12 \<longrightarrow>
      fst (ZK_STATUS_MAP ! nat i) = i \<and>
      translate 0 (PInt i) = Some (PStr (snd (ZK_STATUS_MAP ! nat i)))) \<and>
   (i < 0 \<or> 12 < i \<longrightarrow> translate 0 (PInt i) = Some (PStr ''Unbekannt'')) \<and>
   (\<exists>l. translate 0 (PInt i) = Some (PStr l))"
proof -
  have "fst (ZK_STATUS_MAP ! nat i) = i" if "0 \<le> i" "i \<le> 12"
  proof -
    from that have "i = 0 \<or> i = 1 \<or> i = 2 \<or> i = 3 \<or> i = 4 \<or> i = 5 \<or> i = 6 \<or> i = 7
        \<or> i = 8 \<or> i = 9 \<or> i = 10 \<or> i = 11 \<or> i = 12"
      by arith
    then show ?thesis
      by (elim disjE) (simp_all add: ZK_STATUS_MAP_def)
  qed
  moreover have "length ZK_STATUS_MAP = 13"
    by (simp add: ZK_STATUS_MAP_def)
  ultimately show ?thesis
    by (simp add: translate_int)
qed

theorem status_code_translation_witness:
  "translate 0 (PInt 3) = Some (PStr ''Kessel Start'') \<and>
   translate 0 (PInt 12) = Some (PStr ''Putzen'') \<and>
   translate 0 (PInt 99) = Some (PStr ''Unbekannt'') \<and>
   translate 0 (PInt (- 1)) = Some (PStr ''Unbekannt'')"
  using status_code_translation [of 3] status_code_translation [of 12]
    status_code_translation [of 99] status_code_translation [of "- 1"]
  by (simp add: ZK_STATUS_MAP_def)

subsection \<open>Channel 0 with a float\<close>

lemma dict_get_float_int: "dict_get m (PFloat (Finite (of_int k))) = dict_get m (PInt k)"
  by (induction m) auto

lemma dict_get_None: "(dict_get m v = None) = (\<forall>k \<in> fst ` set m. \<not> num_eq_key v k)"
  by (induction m) (auto split: if_splits)

lemma status_keys: "k \<in> fst ` set ZK_STATUS_MAP \<Longrightarrow> 0 \<le> k \<and> k \<le> 12"
  by (auto simp: ZK_STATUS_MAP_def)

lemma dict_get_float_miss:
  assumes "\<forall>k. 0 \<le> k \<and> k \<le> 12 \<longrightarrow> f \<noteq> Finite (of_int k)"
  shows "dict_get ZK_STATUS_MAP (PFloat f) = None"
proof -
  have "\<not> num_eq_key (PFloat f) k" if "k \<in> fst ` set ZK_STATUS_MAP" for k
  proof (cases f)
    case (Finite q)
    from status_keys [OF that] assms have "f \<noteq> Finite (of_int k)" by blast
    with Finite show ?thesis by simp
  qed simp_all
  then show ?thesis
    by (simp add: dict_get_None)
qed

lemma translate_float_total: "\<exists>l. translate 0 (PFloat f) = Some (PStr l)"
  by (simp add: translate_def status_default)

text \<open>
  Claim C10. On channel 0 a float is looked up in the status table by numeric equality
  and the lookup has a result for every float. A float equal to an integer code from 0 to
  12 gives the label of that code; a float equal to none of them (not integral, out of
  range, infinite or NaN) gives the label of code 0, \<open>Unbekannt\<close>.
\<close>

theorem float_status_lookup:
  "(0 \<le> k \<and> k \<le> 12 \<longrightarrow>
      translate 0 (PFloat (Finite (of_int k))) = Some (PStr (snd (ZK_STATUS_MAP ! nat k)))) \<and>
   ((\<forall>j. 0 \<le> j \<and> j \<le> 12 \<longrightarrow> f \<noteq> Finite (of_int j)) \<longrightarrow>
      translate 0 (PFloat f) = Some (PStr ''Unbekannt'')) \<and>
   (\<exists>l. translate 0 (PFloat f) = Some (PStr l))"
proof (intro conjI impI)
  assume "0 \<le> k \<and> k \<le> 12"
  then show "translate 0 (PFloat (Finite (of_int k))) = Some (PStr (snd (ZK_STATUS_MAP ! nat k)))"
    by (simp add: translate_def status_default dict_get_float_int dict_get_int_hit)
next
  assume "\<forall>j. 0 \<le> j \<and> j \<le> 12 \<longrightarrow> f \<noteq> Finite (of_int j)"
  then have "dict_get ZK_STATUS_MAP (PFloat f) = None"
    by (rule dict_get_float_miss)
  then show "translate 0 (PFloat f) = Some (PStr ''Unbekannt'')"
    by (simp add: translate_def status_default)
next
  show "\<exists>l. translate 0 (PFloat f) = Some (PStr l)"
    by (rule translate_float_total)
qed

theorem float_status_lookup_witness:
  "parse_token py0 ''3.0'' = Some (PFloat (Finite 3)) \<and>
   translate 0 (PFloat (Finite 3)) = Some (PStr ''Kessel Start'') \<and>
   translate 0 (PFloat (Finite (7 / 2))) = Some (PStr ''Unbekannt'') \<and>
   translate 0 (PFloat (Finite 99)) = Some (PStr ''Unbekannt'') \<and>
   translate 0 (PFloat PosInf) = Some (PStr ''Unbekannt'')"
proof -
  have tok: "parse_token py0 ''3.0'' = Some (PFloat (Finite 3))"
    by code_simp
  have half: "Finite (7 / 2) \<noteq> Finite (of_int j)" for j
  proof
    assume "Finite (7 / 2) = Finite (of_int j)"
    then have "(of_int (2 * j) :: rat) = of_int 7" by simp
    then have "2 * j = 7" by (simp only: of_int_eq_iff)
    then show False by presburger
  qed
  have big: "0 \<le> j \<and> j \<le> 12 \<longrightarrow> Finite 99 \<noteq> Finite (of_int j)" for j
  proof
    assume j: "0 \<le> j \<and> j \<le> 12"
    show "Finite 99 \<noteq> Finite (of_int j)"
    proof
      assume "Finite 99 = Finite (of_int j)"
      then have "(of_int j :: rat) = of_int 99" by simp
      then have "j = 99" by (simp only: of_int_eq_iff)
      with j show False by simp
    qed
  qed
  show ?thesis
    using tok float_status_lookup [of 3 "Finite (7 / 2)"] float_status_lookup [of 0 "Finite 99"]
      float_status_lookup [of 0 PosInf] half big
    by (simp add: ZK_STATUS_MAP_def)
qed

subsection \<open>The value decoder\<close>

lemma split_acc_hd: "cur \<noteq> [] \<Longrightarrow> \<exists>r ts. split_acc cur s = (rev cur @ r) # ts"
  by (induction cur s rule: split_acc.induct) (auto split: if_splits)

lemma strip_pm:
  assumes "startswith line ''pm''"
  shows "\<exists>r. strip line = ''pm'' @ r"
proof -
  from assms obtain r where line: "line = ''pm'' @ r"
    by (metis append_take_drop_id startswith_def)
  have ns: "\<not> is_space CHR ''p''" "\<not> is_space CHR ''m''"
    by (simp_all add: is_space_def)
  have "\<exists>zs. dropWhile is_space (rev r @ ''mp'') = zs @ ''mp''"
    using ns by (simp add: dropWhile_append)
  then obtain zs where "dropWhile is_space (rev r @ ''mp'') = zs @ ''mp''"
    by blast
  then have "strip line = ''pm'' @ rev zs"
    using ns by (simp add: strip_def line)
  then show ?thesis by blast
qed

lemma first_token_pm:
  assumes "startswith line ''pm''"
  shows "\<exists>r ts. split (strip line) = (''pm'' @ r) # ts"
proof -
  from strip_pm [OF assms] obtain r where r: "strip line = ''pm'' @ r"
    by blast
  have "\<not> is_space CHR ''p''" "\<not> is_space CHR ''m''"
    by (simp_all add: is_space_def)
  then have "split (strip line) = split_acc ''mp'' r"
    unfolding r split_def by simp
  with split_acc_hd [of "''mp''" r] show ?thesis
    by auto
qed

lemma parse_pm_line_None:
  "(parse_pm_line py line = None) =
     (line = [] \<or> \<not> startswith line ''pm'' \<or> length (split (strip line)) < 2)"
  by (simp add: parse_pm_line_def Let_def)

lemma parse_pm_line_Some:
  assumes "parse_pm_line py line = Some vs"
  shows "vs = map (parse_token py) (tl (split (strip line)))"
  using assms by (simp add: parse_pm_line_def Let_def split: if_splits)

text \<open>
  Claim C2. \<^const>\<open>parse_pm_line\<close> returns \<open>None\<close> exactly when the line is empty, does
  not start with \<open>pm\<close> or has fewer than two tokens. Otherwise the result has one
  position for each token after the first, in order: a token with a \<open>.\<close> is given to
  \<^verbatim>\<open>float\<close>, any other token to \<^verbatim>\<open>int\<close>, and a token that the conversion rejects
  gives \<open>None\<close> at its position while the rest of the line is still decoded. The lines
  \<open>""\<close>, \<open>"xx 1 2"\<close> and \<open>"pm"\<close> give \<open>None\<close>.
\<close>

theorem parse_pm_line_decodes:
  "(parse_pm_line py line = None) =
     (line = [] \<or> \<not> startswith line ''pm'' \<or> length (split (strip line)) < 2) \<and>
   (\<forall>vs. parse_pm_line py line = Some vs \<longrightarrow>
      length vs = length (split (strip line)) - 1 \<and>
      (\<forall>j < length vs.
         vs ! j =
           (let v = split (strip line) ! Suc j
            in if CHR ''.'' \<in> set v
               then (case float_of_str py v of None \<Rightarrow> None | Some x \<Rightarrow> Some (PFloat x))
               else (case int_of_str py v of None \<Rightarrow> None | Some i \<Rightarrow> Some (PInt i))))) \<and>
   parse_pm_line py [] = None \<and>
   parse_pm_line py ''xx 1 2'' = None \<and>
   parse_pm_line py ''pm'' = None"
proof (intro conjI allI impI)
  show "(parse_pm_line py line = None) =
     (line = [] \<or> \<not> startswith line ''pm'' \<or> length (split (strip line)) < 2)"
    by (rule parse_pm_line_None)
next
  fix vs
  assume "parse_pm_line py line = Some vs"
  then have vs: "vs = map (parse_token py) (tl (split (strip line)))"
    by (rule parse_pm_line_Some)
  then show "length vs = length (split (strip line)) - 1"
    by simp
  fix j
  assume "j < length vs"
  with vs have "vs ! j = parse_token py (split (strip line) ! Suc j)"
    by (simp add: nth_tl)
  then show "vs ! j =
      (let v = split (strip line) ! Suc j
       in if CHR ''.'' \<in> set v
          then (case float_of_str py v of None \<Rightarrow> None | Some x \<Rightarrow> Some (PFloat x))
          else (case int_of_str py v of None \<Rightarrow> None | Some i \<Rightarrow> Some (PInt i)))"
    by (simp add: parse_token_def Let_def split: option.splits)
next
  show "parse_pm_line py [] = None"
    by (simp add: parse_pm_line_def)
next
  show "parse_pm_line py ''xx 1 2'' = None"
    by (simp add: parse_pm_line_def startswith_def)
next
  show "parse_pm_line py ''pm'' = None"
    by (simp add: parse_pm_line_def startswith_def strip_def split_def is_space_def)
qed

theorem parse_pm_line_decodes_witness:
  "parse_pm_line py0 ''pm 1 22.5 990'' =
     Some [Some (PInt 1), Some (PFloat (Finite (45 / 2))), Some (PInt 990)] \<and>
   split (strip ''pm 1 22.5 990'') = [''pm'', ''1'', ''22.5'', ''990''] \<and>
   parse_pm_line py0 ''pm 1 x.5 990'' = Some [Some (PInt 1), None, Some (PInt 990)] \<and>
   length [Some (PInt 1), None, Some (PInt 990)] = length (split (strip ''pm 1 x.5 990'')) - 1"
proof -
  have a: "parse_pm_line py0 ''pm 1 22.5 990'' =
      Some [Some (PInt 1), Some (PFloat (Finite (45 / 2))), Some (PInt 990)]"
    by code_simp
  have b: "split (strip ''pm 1 22.5 990'') = [''pm'', ''1'', ''22.5'', ''990'']"
    by code_simp
  have c: "parse_pm_line py0 ''pm 1 x.5 990'' = Some [Some (PInt 1), None, Some (PInt 990)]"
    by code_simp
  from parse_pm_line_decodes [of py0 "''pm 1 x.5 990''"] c
  have "length [Some (PInt 1), None, Some (PInt 990)] = length (split (strip ''pm 1 x.5 990'')) - 1"
    by blast
  with a b c show ?thesis
    by blast
qed

text \<open>
  Claim C9. The marker test is a test of the first two characters of the line only: a
  line that starts with \<open>pm\<close> and has at least two tokens is decoded, whatever follows
  the marker inside the first token. The first token, which begins with \<open>pm\<close>, is
  dropped as a whole, and the values are those of the tokens after it: \<open>"pmX 1 2"\<close> is
  decoded to the values 1 and 2.
\<close>

theorem marker_prefix_only:
  "startswith line ''pm'' \<and> 2 \<le> length (split (strip line)) \<longrightarrow>
     (\<exists>r ts. split (strip line) = (''pm'' @ r) # ts \<and>
        parse_pm_line py line = Some (map (parse_token py) ts))"
proof
  assume a: "startswith line ''pm'' \<and> 2 \<le> length (split (strip line))"
  then obtain r ts where sp: "split (strip line) = (''pm'' @ r) # ts"
    using first_token_pm by blast
  from a have "line \<noteq> []"
    by (auto simp: startswith_def)
  with a sp have "parse_pm_line py line = Some (map (parse_token py) ts)"
    by (auto simp add: parse_pm_line_def)
  with sp show "\<exists>r ts. split (strip line) = (''pm'' @ r) # ts \<and>
      parse_pm_line py line = Some (map (parse_token py) ts)"
    by blast
qed

theorem marker_prefix_only_witness:
  "startswith ''pmX 1 2'' ''pm'' \<and> 2 \<le> length (split (strip ''pmX 1 2'')) \<and>
   split (strip ''pmX 1 2'') = ''pmX'' # [''1'', ''2''] \<and>
   parse_pm_line py0 ''pmX 1 2'' = Some [Some (PInt 1), Some (PInt 2)] \<and>
   parse_pm_line py0 ''pm7 1 2'' = Some [Some (PInt 1), Some (PInt 2)]"
proof -
  have a: "startswith ''pmX 1 2'' ''pm''"
    by (simp add: startswith_def)
  have b: "split (strip ''pmX 1 2'') = ''pmX'' # [''1'', ''2'']"
    by code_simp
  have c: "map (parse_token py0) [''1'', ''2''] = [Some (PInt 1), Some (PInt 2)]"
    by code_simp
  have d: "parse_pm_line py0 ''pm7 1 2'' = Some [Some (PInt 1), Some (PInt 2)]"
    by code_simp
  from marker_prefix_only [of "''pmX 1 2''" py0] a b c
  have "parse_pm_line py0 ''pmX 1 2'' = Some [Some (PInt 1), Some (PInt 2)]"
    by auto
  with a b d show ?thesis
    by simp
qed

subsection \<open>Connecting with backoff\<close>

lemma double_cap: "min (min (2 ^ m) 30 * 2) (30::nat) = min (2 ^ Suc m) 30"
  by (cases "(2::nat) ^ m \<le> 30") (auto simp: min_def)

lemma connect_loop_first_success:
  "conn (k + n) = Returned \<Longrightarrow> (\<forall>i<n. conn (k + i) = Raised) \<Longrightarrow>
   \<exists>es. connect_loop conn k (min (2 ^ m) 30) = Some es \<and>
        slept es = map (\<lambda>j. min (2 ^ (m + j)) 30) [0..<n] \<and> attempts es = Suc n \<and>
        published es = []"
proof (induction n arbitrary: k m)
  case 0
  then show ?case
    by (subst connect_loop.simps) simp
next
  case (Suc n)
  have "conn (Suc k + n) = Returned"
    using Suc.prems(1) by simp
  moreover have "\<forall>i<n. conn (Suc k + i) = Raised"
    using Suc.prems(2) by auto
  ultimately obtain es where es: "connect_loop conn (Suc k) (min (2 ^ Suc m) 30) = Some es"
    "slept es = map (\<lambda>j. min (2 ^ (Suc m + j)) 30) [0..<n]" "attempts es = Suc n"
    "published es = []"
    using Suc.IH [of "Suc k" "Suc m"] by blast
  have k: "conn k = Raised"
    using Suc.prems(2) [rule_format, of 0] by simp
  have step: "connect_loop conn (Suc k) (min (min (2 ^ m) 30 * 2) 30) = Some es"
    using es(1) by (simp only: double_cap)
  have "connect_loop conn k (min (2 ^ m) 30) =
      Some ([Log INFO, TelnetConnect, Log WARNING, Sleep (min (2 ^ m) 30)] @ es)"
    by (subst connect_loop.simps) (simp only: k step outcome.case bind.simps)
  moreover have "map (\<lambda>j. min (2 ^ (m + j)) 30) [0..<Suc n] =
      min (2 ^ m) 30 # map (\<lambda>j. min (2 ^ (Suc m + j)) (30::nat)) [0..<n]"
    by (simp add: upt_rec [of 0] map_Suc_upt [symmetric] del: upt_Suc)
  ultimately show ?case
    using es by simp
qed

lemma connect_loop_returns_only_on_success:
  assumes "connect_loop conn k d = Some es"
  shows "\<exists>j\<ge>k. conn j = Returned"
proof (rule connect_loop.raw_induct [where P = "\<lambda>c k d es. \<exists>j\<ge>k. c j = Returned", OF _ assms])
  fix f :: "(nat \<Rightarrow> outcome) \<Rightarrow> nat \<Rightarrow> nat \<Rightarrow> event list option" and c k d y
  assume IH: "\<And>c k d y. f c k d = Some y \<Longrightarrow> \<exists>j\<ge>k. c j = Returned"
    and eq: "(case c k of Returned \<Rightarrow> Some [Log INFO, TelnetConnect, Log INFO]
      | Raised \<Rightarrow>
          Option.bind (f c (Suc k) (min (d * 2) 30))
           (\<lambda>es. Some ([Log INFO, TelnetConnect, Log WARNING, Sleep d] @ es))) = Some y"
  show "\<exists>j\<ge>k. c j = Returned"
  proof (cases "c k")
    case Returned
    then show ?thesis by blast
  next
    case Raised
    with eq obtain es' where "f c (Suc k) (min (d * 2) 30) = Some es'"
      by (auto simp: bind_eq_Some_conv)
    from IH [OF this] obtain j where "j \<ge> Suc k" "c j = Returned"
      by blast
    then show ?thesis
      by (meson Suc_leD)
  qed
qed

lemma connect_first_success:
  assumes "conn n = Returned" and "\<forall>i<n. conn i = Raised"
  shows "\<exists>es. connect_telnet_with_backoff conn = Some es \<and> attempts es = Suc n \<and>
           slept es = map (\<lambda>m. min (2 ^ (m - 1)) 30) [1..<Suc n] \<and> published es = []"
proof -
  have m: "map (\<lambda>m. min (2 ^ (m - 1)) (30::nat)) [1..<Suc n] = map (\<lambda>j. min (2 ^ (0 + j)) 30) [0..<n]"
    by (simp add: map_Suc_upt [symmetric] del: upt_Suc)
  have "min (2 ^ 0) (30::nat) = 1"
    by simp
  with connect_loop_first_success [of conn 0 n 0] assms
  obtain es where "connect_loop conn 0 1 = Some es"
    "slept es = map (\<lambda>j. min (2 ^ (0 + j)) 30) [0..<n]" "attempts es = Suc n" "published es = []"
    by auto
  with m show ?thesis
    unfolding connect_telnet_with_backoff_def by metis
qed

lemma connect_never:
  assumes "\<forall>i. conn i = Raised"
  shows "connect_telnet_with_backoff conn = None"
proof (cases "connect_telnet_with_backoff conn")
  case (Some es)
  then obtain j where "conn j = Returned"
    using connect_loop_returns_only_on_success [of conn 0 1 es]
    by (auto simp: connect_telnet_with_backoff_def)
  with assms show ?thesis by simp
qed simp

text \<open>
  Claim C6. \<^const>\<open>connect_telnet_with_backoff\<close> has no retry limit: when the attempt
  number \<open>n\<close> (counted from 0) is the first that succeeds, however large \<open>n\<close> is, the call
  returns after \<open>n + 1\<close> attempts, and the delay slept after the \<open>m\<close>-th failed attempt is
  \<open>min (2 ^ (m - 1)) 30\<close>: 1, 2, 4, 8, 16, 30, 30 and so on. It returns only when an
  attempt has succeeded, and when no attempt ever succeeds it never returns.
\<close>

theorem connect_backoff:
  "(conn n = Returned \<and> (\<forall>i<n. conn i = Raised) \<longrightarrow>
      (\<exists>es. connect_telnet_with_backoff conn = Some es \<and> attempts es = Suc n \<and>
         slept es = map (\<lambda>m. min (2 ^ (m - 1)) 30) [1..<Suc n])) \<and>
   ((\<forall>i. conn i = Raised) \<longrightarrow> connect_telnet_with_backoff conn = None) \<and>
   (\<forall>es. connect_telnet_with_backoff conn = Some es \<longrightarrow> (\<exists>j. conn j = Returned))"
proof (intro conjI impI allI)
  assume "conn n = Returned \<and> (\<forall>i<n. conn i = Raised)"
  then show "\<exists>es. connect_telnet_with_backoff conn = Some es \<and> attempts es = Suc n \<and>
      slept es = map (\<lambda>m. min (2 ^ (m - 1)) 30) [1..<Suc n]"
    using connect_first_success [of conn n] by blast
next
  assume "\<forall>i. conn i = Raised"
  then show "connect_telnet_with_backoff conn = None"
    by (rule connect_never)
next
  fix es
  assume "connect_telnet_with_backoff conn = Some es"
  then show "\<exists>j. conn j = Returned"
    using connect_loop_returns_only_on_success [of conn 0 1 es]
    by (auto simp: connect_telnet_with_backoff_def)
qed

theorem connect_backoff_witness:
  "(\<exists>es. connect_telnet_with_backoff (\<lambda>k. if k < 7 then Raised else Returned) = Some es \<and>
      attempts es = 8 \<and> slept es = [1, 2, 4, 8, 16, 30, 30]) \<and>
   connect_telnet_with_backoff (\<lambda>k. Raised) = None \<and>
   connect_telnet_with_backoff (\<lambda>k. Returned) = Some [Log INFO, TelnetConnect, Log INFO]"
proof -
  have a: "map (\<lambda>m. min (2 ^ (m - 1)) (30::nat)) [1..<Suc 7] = [1, 2, 4, 8, 16, 30, 30]"
    by (simp add: upt_rec)
  have b: "connect_telnet_with_backoff (\<lambda>k. Returned) = Some [Log INFO, TelnetConnect, Log INFO]"
    by (simp add: connect_telnet_with_backoff_def connect_loop.simps)
  show ?thesis
    using connect_backoff [of "\<lambda>k. if k < 7 then Raised else Returned" 7]
      connect_backoff [of "\<lambda>k. Raised" 0] a b
    by simp
qed

subsection \<open>Reconnecting\<close>



subsection \<open>Discovery\<close>

lemma get_device_class_nonempty: "get_device_class l u \<noteq> Some []"
  by (simp add: get_device_class_def)

lemma get_device_class_cases:
  "(get_device_class l u = Some ''temperature'') = (u = degree_C)"
  "(get_device_class l u = Some ''humidity'') =
     (u = ''%'' \<and> (contains l ''Feuchte'' \<or> contains l ''Luftfeuchte''))"
  "(get_device_class l u = Some ''pressure'') = (u = ''bar'')"
  "(get_device_class l u = Some ''power'') =
     (u \<noteq> degree_C \<and> u \<noteq> ''%'' \<and> u \<noteq> ''bar'' \<and> contains l ''Leistung'')"
  "(get_device_class l u = None) =
     (u \<noteq> degree_C \<and> u \<noteq> ''bar'' \<and>
      (if u = ''%'' then \<not> contains l ''Feuchte'' \<and> \<not> contains l ''Luftfeuchte''
       else \<not> contains l ''Leistung''))"
  by (auto simp add: get_device_class_def degree_C_def)

lemma send_sensors_all:
  assumes "\<forall>m. bus m = Returned"
  shows "\<exists>es. send_sensors cfg bus xs = (Returned, es) \<and>
           published es = map (\<lambda>(i, e). sensor_message cfg i e) xs"
  by (induction xs) (auto simp: assms Let_def)

lemma send_discovery_all:
  assumes "\<forall>m. bus m = Returned"
  shows "\<exists>es. send_discovery cfg bus = (Returned, es) \<and>
           published es =
             map (\<lambda>(i, e). sensor_message cfg i e) (channel_map cfg) @ [connectivity_message cfg]"
proof -
  from send_sensors_all [OF assms, of cfg "channel_map cfg"]
  obtain es where es: "send_sensors cfg bus (channel_map cfg) = (Returned, es)"
    "published es = map (\<lambda>(i, e). sensor_message cfg i e) (channel_map cfg)"
    by blast
  have "published (es @ [Publish m, Log INFO]) = published es @ [m]" for m
    by (induction es rule: published.induct) simp_all
  with es show ?thesis
    by (simp add: send_discovery_def assms Let_def)
qed

lemma discovery_retained:
  "retain (sensor_message cfg i e)" "retain (connectivity_message cfg)"
  by (simp_all add: sensor_message_def connectivity_message_def)

lemma sensor_payload_fields:
  "idx \<noteq> 0 \<Longrightarrow>
     map_of (sensor_payload cfg idx e) ''unit_of_measurement'' = Some (JStr (get_unit e)) \<and>
     map_of (sensor_payload cfg idx e) ''state_class'' = Some (JStr ''measurement'') \<and>
     map_of (sensor_payload cfg idx e) ''device_class'' =
       map_option JStr (get_device_class (get_label e) (get_unit e))"
  "map_of (sensor_payload cfg 0 e) ''unit_of_measurement'' = None \<and>
   map_of (sensor_payload cfg 0 e) ''state_class'' = None \<and>
   map_of (sensor_payload cfg 0 e) ''device_class'' = None"
  using get_device_class_nonempty [of "get_label e" "get_unit e"]
  by (auto simp add: sensor_payload_def split: option.splits)


text \<open>
  Claim C8 says that a descriptor has the device class \<open>power\<close> when the label mentions a
  power. The code asks for the label only after the unit: a channel in \<open>%\<close> whose label
  contains \<open>Leistung\<close> gets no device class.
\<close>

theorem power_label_in_percent_counterexample:
  "contains (get_label e_power_percent) ''Leistung'' \<and>
   get_device_class (get_label e_power_percent) (get_unit e_power_percent) = None \<and>
   descriptor_field (sensor_message cfg1 3 e_power_percent) ''device_class'' = None"
  by code_simp

text \<open>
  Claim C8, amended. When no publish raises, \<^const>\<open>send_discovery\<close> publishes one
  descriptor for each entry of the channel table, in order, then the connectivity
  descriptor, all of them retained. A descriptor of an index other than 0 has the unit of
  the channel, the state class \<open>measurement\<close>, and a device class exactly when
  \<^const>\<open>get_device_class\<close> gives one; the descriptor of index 0 has none of the three
  keys. The device class is decided by the unit first: \<open>temperature\<close> for the unit
  degree Celsius; for the unit \<open>%\<close>, \<open>humidity\<close> when the label contains \<open>Feuchte\<close> or
  \<open>Luftfeuchte\<close> and none otherwise; \<open>pressure\<close> for \<open>bar\<close>; for every other unit,
  \<open>power\<close> when the label contains \<open>Leistung\<close> and none otherwise.
\<close>

theorem discovery_descriptors:
  "((\<forall>m. bus m = Returned) \<longrightarrow>
      (\<exists>es. send_discovery cfg bus = (Returned, es) \<and>
         published es =
           map (\<lambda>(i, e). sensor_message cfg i e) (channel_map cfg) @ [connectivity_message cfg] \<and>
         length (published es) = length (channel_map cfg) + 1 \<and>
         (\<forall>m \<in> set (published es). retain m))) \<and>
   (idx \<noteq> 0 \<longrightarrow>
      descriptor_field (sensor_message cfg idx e) ''unit_of_measurement'' = Some (JStr (get_unit e)) \<and>
      descriptor_field (sensor_message cfg idx e) ''state_class'' = Some (JStr ''measurement'') \<and>
      descriptor_field (sensor_message cfg idx e) ''device_class'' =
        map_option JStr (get_device_class (get_label e) (get_unit e))) \<and>
   descriptor_field (sensor_message cfg 0 e) ''unit_of_measurement'' = None \<and>
   descriptor_field (sensor_message cfg 0 e) ''state_class'' = None \<and>
   descriptor_field (sensor_message cfg 0 e) ''device_class'' = None \<and>
   (get_device_class l u = Some ''temperature'') = (u = degree_C) \<and>
   (get_device_class l u = Some ''humidity'') =
     (u = ''%'' \<and> (contains l ''Feuchte'' \<or> contains l ''Luftfeuchte'')) \<and>
   (get_device_class l u = Some ''pressure'') = (u = ''bar'') \<and>
   (get_device_class l u = Some ''power'') =
     (u \<noteq> degree_C \<and> u \<noteq> ''%'' \<and> u \<noteq> ''bar'' \<and> contains l ''Leistung'') \<and>
   (get_device_class l u = None) =
     (u \<noteq> degree_C \<and> u \<noteq> ''bar'' \<and>
      (if u = ''%'' then \<not> contains l ''Feuchte'' \<and> \<not> contains l ''Luftfeuchte''
       else \<not> contains l ''Leistung''))"
proof -
  have pub: "\<exists>es. send_discovery cfg bus = (Returned, es) \<and>
         published es =
           map (\<lambda>(i, e). sensor_message cfg i e) (channel_map cfg) @ [connectivity_message cfg] \<and>
         length (published es) = length (channel_map cfg) + 1 \<and>
         (\<forall>m \<in> set (published es). retain m)" if "\<forall>m. bus m = Returned"
  proof -
    from send_discovery_all [OF that, of cfg] obtain es where
      es: "send_discovery cfg bus = (Returned, es)"
      "published es =
         map (\<lambda>(i, e). sensor_message cfg i e) (channel_map cfg) @ [connectivity_message cfg]"
      by blast
    have "length (published es) = length (channel_map cfg) + 1"
      by (simp add: es(2))
    moreover have "\<forall>m \<in> set (published es). retain m"
      by (auto simp add: es(2) discovery_retained)
    ultimately show ?thesis
      using es by blast
  qed
  have f: "descriptor_field (sensor_message cfg i e) k = map_of (sensor_payload cfg i e) k" for i k
    by (simp add: descriptor_field_def sensor_message_def)
  note g = get_device_class_cases [of l u]
  from sensor_payload_fields(1) [of idx cfg e]
  have nz: "idx \<noteq> 0 \<longrightarrow>
      descriptor_field (sensor_message cfg idx e) ''unit_of_measurement'' = Some (JStr (get_unit e)) \<and>
      descriptor_field (sensor_message cfg idx e) ''state_class'' = Some (JStr ''measurement'') \<and>
      descriptor_field (sensor_message cfg idx e) ''device_class'' =
        map_option JStr (get_device_class (get_label e) (get_unit e))"
    by (simp only: f) blast
  from sensor_payload_fields(2) [of cfg e]
  have z: "descriptor_field (sensor_message cfg 0 e) ''unit_of_measurement'' = None \<and>
   descriptor_field (sensor_message cfg 0 e) ''state_class'' = None \<and>
   descriptor_field (sensor_message cfg 0 e) ''device_class'' = None"
    by (simp only: f)
  from pub nz z g(1) g(2) g(3) g(4) g(5) show ?thesis
    by (intro conjI impI) blast+
qed

theorem discovery_descriptors_witness:
  "published (snd (send_discovery cfg1 (\<lambda>m. Returned))) =
     map (\<lambda>(i, e). sensor_message cfg1 i e) (channel_map cfg1) @ [connectivity_message cfg1] \<and>
   length (published (snd (send_discovery cfg1 (\<lambda>m. Returned)))) = 4 \<and>
   descriptor_field (sensor_message cfg1 1 (snd (channel_map cfg1 ! 1))) ''device_class'' =
     Some (JStr ''temperature'') \<and>
   descriptor_field (sensor_message cfg1 0 (snd (channel_map cfg1 ! 0))) ''device_class'' = None"
proof -
  have l: "length (channel_map cfg1) = 3"
    by (simp add: cfg1_def)
  have g: "get_device_class (get_label (snd (channel_map cfg1 ! 1)))
      (get_unit (snd (channel_map cfg1 ! 1))) = Some ''temperature''"
    by (simp add: cfg1_def get_device_class_def get_unit_def)
  have h: "\<forall>m. (\<lambda>m. Returned) m = Returned"
    by simp
  have n: "(1::nat) \<noteq> 0"
    by simp
  note d = discovery_descriptors [of "\<lambda>m. Returned" cfg1 1 "snd (channel_map cfg1 ! 1)" l u for l u]
  from d [THEN conjunct1, THEN mp, OF h]
  obtain es where es: "send_discovery cfg1 (\<lambda>m. Returned) = (Returned, es)"
    "published es =
       map (\<lambda>(i, e). sensor_message cfg1 i e) (channel_map cfg1) @ [connectivity_message cfg1]"
    "length (published es) = length (channel_map cfg1) + 1"
    by blast
  have "descriptor_field (sensor_message cfg1 1 (snd (channel_map cfg1 ! 1))) ''device_class'' =
      map_option JStr (get_device_class (get_label (snd (channel_map cfg1 ! 1)))
        (get_unit (snd (channel_map cfg1 ! 1))))"
    using d [THEN conjunct2, THEN conjunct1, THEN mp, OF n] by (elim conjE)
  then have dc: "descriptor_field (sensor_message cfg1 1 (snd (channel_map cfg1 ! 1)))
      ''device_class'' = Some (JStr ''temperature'')"
    by (simp only: g option.map)
  have z: "descriptor_field (sensor_message cfg1 0 (snd (channel_map cfg1 ! 0)))
      ''device_class'' = None"
    by (rule discovery_descriptors [of "\<lambda>m. Returned" cfg1 1 "snd (channel_map cfg1 ! 0)",
        THEN conjunct2, THEN conjunct2, THEN conjunct2, THEN conjunct2, THEN conjunct1])
  have p: "published (snd (send_discovery cfg1 (\<lambda>m. Returned))) =
     map (\<lambda>(i, e). sensor_message cfg1 i e) (channel_map cfg1) @ [connectivity_message cfg1]"
    by (simp only: es snd_conv)
  have "length (published (snd (send_discovery cfg1 (\<lambda>m. Returned)))) =
      length (channel_map cfg1) + 1"
    by (simp only: es(1) snd_conv es(3))
  then have q: "length (published (snd (send_discovery cfg1 (\<lambda>m. Returned)))) = 4"
    by (simp only: l)
  from p q dc z show ?thesis
    by (intro conjI)
qed

subsection \<open>The publish loop\<close>

lemma translate_total: "\<exists>p. translate i v = Some p"
  by (simp add: translate_def status_default)

lemma almost_equal_unchanged: "almost_equal py eps a b = unchanged py eps a b"
  by (simp add: almost_equal_def unchanged_def abs_diff_def split: option.splits)

lemma line_publishes_cong:
  "(\<forall>i\<ge>idx. lv1 i = lv2 i) \<Longrightarrow> line_publishes py cfg lv1 idx vals = line_publishes py cfg lv2 idx vals"
  by (induction vals arbitrary: idx) (auto split: option.splits)

lemma publish_values_events:
  "publish_values py cfg bus idx vals lv = (r, lv', es) \<Longrightarrow>
     es = map Publish (until_raised bus (line_publishes py cfg lv idx vals))"
proof (induction vals arbitrary: idx lv r lv' es)
  case Nil
  then show ?case by simp
next
  case (Cons val rest)
  show ?case
  proof (cases "map_of (channel_map cfg) idx")
    case None
    with Cons show ?thesis by simp
  next
    case (Some e)
    show ?thesis
    proof (cases val)
      case None
      with Cons Some show ?thesis by simp
    next
      case (Some v)
      obtain p where p: "translate idx v = Some p" using translate_total by blast
      show ?thesis
      proof (cases "should_publish py (FLOAT_EPS cfg) (lv idx) p")
        case False
        then have "(case lv idx of None \<Rightarrow> False | Some prev \<Rightarrow> almost_equal py (FLOAT_EPS cfg) prev p)"
          by (simp add: should_publish_def almost_equal_unchanged split: option.splits)
        with Cons \<open>map_of (channel_map cfg) idx = Some e\<close> Some p False show ?thesis by simp
      next
        case True
        then have ne: "\<not> (case lv idx of None \<Rightarrow> False | Some prev \<Rightarrow> almost_equal py (FLOAT_EPS cfg) prev p)"
          by (simp add: should_publish_def almost_equal_unchanged split: option.splits)
        show ?thesis
        proof (cases "bus (value_message cfg e p)")
          case Raised
          with Cons.prems \<open>map_of (channel_map cfg) idx = Some e\<close> Some p True ne show ?thesis by simp
        next
          case Returned
          obtain r2 lv2 es2 where rec: "publish_values py cfg bus (Suc idx) rest (lv(idx \<mapsto> p)) = (r2, lv2, es2)"
            by (metis prod_cases3)
          from Cons.IH[OF rec] have "es2 = map Publish (until_raised bus (line_publishes py cfg (lv(idx \<mapsto> p)) (Suc idx) rest))" .
          moreover have "line_publishes py cfg (lv(idx \<mapsto> p)) (Suc idx) rest = line_publishes py cfg lv (Suc idx) rest"
            by (rule line_publishes_cong) simp
          ultimately show ?thesis
            using Cons.prems \<open>map_of (channel_map cfg) idx = Some e\<close> Some p True ne Returned rec by simp
        qed
      qed
    qed
  qed
qed

lemma translate_not_None: "translate i v \<noteq> None"
  using translate_total [of i v] by auto

lemma publish_values_frame:
  "publish_values py cfg bus idx vals lv = (r, lv', es) \<Longrightarrow> i < idx \<Longrightarrow> lv' i = lv i"
proof (induction vals arbitrary: idx lv r lv' es)
  case Nil
  then show ?case by simp
next
  case (Cons val rest)
  have IH: "publish_values py cfg bus (Suc idx) rest lv0 = (r0, lv0', es0) \<Longrightarrow> lv0' i = lv0 i"
    for lv0 r0 lv0' es0
    using Cons.IH [of "Suc idx" lv0 r0 lv0' es0] Cons.prems(2) by simp
  from Cons.prems show ?case
    by (auto simp: Let_def split: option.splits if_splits outcome.splits prod.splits dest!: IH)
qed

lemma publish_values_no_events:
  "publish_values py cfg bus idx vals lv = (r, lv', []) \<Longrightarrow> r = Returned \<and> lv' = lv"
proof (induction vals arbitrary: idx lv)
  case Nil
  then show ?case by simp
next
  case (Cons val rest)
  from Cons.prems show ?case
    by (auto simp: Let_def translate_not_None
        split: option.splits if_splits outcome.splits prod.splits dest!: Cons.IH)
qed

lemma publish_values_Cons_disj:
  assumes "publish_values py cfg bus idx (val # rest) lv = (r, lv', es)"
  shows
    "((\<forall>e v p. map_of (channel_map cfg) idx = Some e \<and> val = Some v \<and> translate idx v = Some p
         \<longrightarrow> \<not> should_publish py (FLOAT_EPS cfg) (lv idx) p) \<and>
      publish_values py cfg bus (Suc idx) rest lv = (r, lv', es)) \<or>
     (\<exists>e v p. map_of (channel_map cfg) idx = Some e \<and> val = Some v \<and>
        translate idx v = Some p \<and> should_publish py (FLOAT_EPS cfg) (lv idx) p \<and>
        bus (value_message cfg e p) = Raised \<and>
        r = Raised \<and> lv' = lv \<and> es = [Publish (value_message cfg e p)]) \<or>
     (\<exists>e v p es0. map_of (channel_map cfg) idx = Some e \<and> val = Some v \<and>
        translate idx v = Some p \<and> should_publish py (FLOAT_EPS cfg) (lv idx) p \<and>
        bus (value_message cfg e p) = Returned \<and>
        publish_values py cfg bus (Suc idx) rest (lv(idx \<mapsto> p)) = (r, lv', es0) \<and>
        es = Publish (value_message cfg e p) # es0)"
  using assms
  by (auto simp: Let_def translate_not_None should_publish_def almost_equal_unchanged
      split: option.splits if_splits outcome.splits prod.splits)

lemma publish_values_Cons:
  assumes "publish_values py cfg bus idx (val # rest) lv = (r, lv', es)"
  obtains
    (skip) "publish_values py cfg bus (Suc idx) rest lv = (r, lv', es)"
      "\<forall>e v p. map_of (channel_map cfg) idx = Some e \<and> val = Some v \<and> translate idx v = Some p
         \<longrightarrow> \<not> should_publish py (FLOAT_EPS cfg) (lv idx) p"
  | (raised) e v p where "map_of (channel_map cfg) idx = Some e" "val = Some v"
      "translate idx v = Some p" "should_publish py (FLOAT_EPS cfg) (lv idx) p"
      "bus (value_message cfg e p) = Raised"
      "r = Raised" "lv' = lv" "es = [Publish (value_message cfg e p)]"
  | (sent) e v p es0 where "map_of (channel_map cfg) idx = Some e" "val = Some v"
      "translate idx v = Some p" "should_publish py (FLOAT_EPS cfg) (lv idx) p"
      "bus (value_message cfg e p) = Returned"
      "publish_values py cfg bus (Suc idx) rest (lv(idx \<mapsto> p)) = (r, lv', es0)"
      "es = Publish (value_message cfg e p) # es0"
  using publish_values_Cons_disj [OF assms]
  by (elim disjE conjE exE) blast+


subsection \<open>The change filter\<close>

lemma until_raised_all: "\<forall>m. bus m = Returned \<Longrightarrow> until_raised bus ms = ms"
  by (induction ms) simp_all

lemma published_map_Publish: "published (map Publish ms) = ms"
  by (induction ms) simp_all

lemma publish_values_returned:
  "\<forall>m. bus m = Returned \<Longrightarrow> publish_values py cfg bus idx vals lv = (r, lv', es) \<Longrightarrow> r = Returned"
proof (induction vals arbitrary: idx lv r lv' es)
  case Nil
  then show ?case by simp
next
  case (Cons val rest)
  from Cons.prems(2) show ?case
  proof (cases rule: publish_values_Cons)
    case skip
    from Cons.IH [OF Cons.prems(1) skip(1)] show ?thesis .
  next
    case (raised e v p)
    with Cons.prems(1) show ?thesis by simp
  next
    case (sent e v p es0)
    from Cons.IH [OF Cons.prems(1) sent(6)] show ?thesis .
  qed
qed

lemma second_pass_silent:
  assumes "\<forall>m. bus m = Returned"
  shows "publish_values py cfg bus idx vals lv = (r, lv', es) \<Longrightarrow>
    (\<forall>j<length vals. \<forall>v p. vals ! j = Some v \<and> translate (idx + j) v = Some p \<longrightarrow>
        almost_equal py (FLOAT_EPS cfg) p p) \<Longrightarrow>
    line_publishes py cfg lv' idx vals = []"
proof (induction vals arbitrary: idx lv r lv' es)
  case Nil
  then show ?case by simp
next
  case (Cons val rest)
  have shift: "\<forall>j<length rest. \<forall>v p. rest ! j = Some v \<and> translate (Suc idx + j) v = Some p \<longrightarrow>
        almost_equal py (FLOAT_EPS cfg) p p"
    using Cons.prems(2) by fastforce
  from Cons.prems(1) show ?case
  proof (cases rule: publish_values_Cons)
    case skip
    from publish_values_frame [OF skip(1), of idx] have "lv' idx = lv idx" by simp
    with skip(2) have "(case (map_of (channel_map cfg) idx, val) of
        (Some e, Some v) \<Rightarrow>
          (case translate idx v of
             Some p \<Rightarrow>
               if should_publish py (FLOAT_EPS cfg) (lv' idx) p then [value_message cfg e p] else []
           | None \<Rightarrow> [])
      | _ \<Rightarrow> []) = []"
      by (auto split: option.splits)
    with Cons.IH [OF skip(1) shift] show ?thesis by simp
  next
    case (raised e v p)
    with assms show ?thesis by simp
  next
    case (sent e v p es0)
    from publish_values_frame [OF sent(6), of idx] have c: "lv' idx = Some p" by simp
    from Cons.prems(2) sent(2,3) have "almost_equal py (FLOAT_EPS cfg) p p"
      by fastforce
    then have "\<not> should_publish py (FLOAT_EPS cfg) (lv' idx) p"
      by (simp add: c should_publish_def almost_equal_unchanged)
    with sent Cons.IH [OF sent(6) shift] show ?thesis by simp
  qed
qed

lemma almost_equal_self:
  "\<not> is_float p \<Longrightarrow> almost_equal py eps p p"
  "float_sub py x x = Finite 0 \<Longrightarrow> flt (Finite 0) eps \<Longrightarrow> almost_equal py eps (PFloat x) (PFloat x)"
  by (simp_all add: almost_equal_def)

lemma iteration_nothing:
  assumes "read w = ReadData raw"
    and "raw = [] \<or> strip raw = [] \<or> parse_pm_line py (strip raw) = None \<or>
      parse_pm_line py (strip raw) = Some []"
  shows "iteration py cfg w lv = Some (lv, [TelnetRead])"
  using assms by (auto simp: iteration_def Let_def)

lemma iteration_values:
  assumes "read w = ReadData raw" and "parse_pm_line py (strip raw) = Some vals" and "vals \<noteq> []"
    and "raw \<noteq> []" and "strip raw \<noteq> []"
    and "publish_values py cfg (bus_of w) 0 vals lv = (Returned, lv', es)"
  shows "iteration py cfg w lv = Some (lv', TelnetRead # es)"
  using assms by (simp add: iteration_def Let_def)

lemma iteration_twice:
  assumes rd: "read w = ReadData raw" and bus: "\<forall>m. bus_of w m = Returned"
    and self: "\<forall>vals j v p. parse_pm_line py (strip raw) = Some vals \<and> j < length vals \<and>
        vals ! j = Some v \<and> translate j v = Some p \<longrightarrow> almost_equal py (FLOAT_EPS cfg) p p"
    and first: "iteration py cfg w lv = Some (lv', es)"
  shows "iteration py cfg w lv' = Some (lv', [TelnetRead])"
proof (cases "raw = [] \<or> strip raw = [] \<or> parse_pm_line py (strip raw) = None \<or>
      parse_pm_line py (strip raw) = Some []")
  case True
  from iteration_nothing [OF rd True] first have "lv' = lv"
    by simp
  with iteration_nothing [OF rd True] show ?thesis
    by simp
next
  case False
  then obtain vals where vals: "parse_pm_line py (strip raw) = Some vals" "vals \<noteq> []"
    and ne: "raw \<noteq> []" "strip raw \<noteq> []"
    by auto
  obtain r lv1 es1 where pv: "publish_values py cfg (bus_of w) 0 vals lv = (r, lv1, es1)"
    by (metis prod_cases3)
  from publish_values_returned [OF bus pv] have r: "r = Returned" .
  from iteration_values [OF rd vals ne pv [unfolded r]] first have lv': "lv' = lv1"
    by simp
  from self vals have "\<forall>j<length vals. \<forall>v p. vals ! j = Some v \<and> translate (0 + j) v = Some p \<longrightarrow>
        almost_equal py (FLOAT_EPS cfg) p p"
    by simp
  from second_pass_silent [OF bus pv this] have silent: "line_publishes py cfg lv1 0 vals = []" .
  obtain r2 lv2 es2 where pv2: "publish_values py cfg (bus_of w) 0 vals lv1 = (r2, lv2, es2)"
    by (metis prod_cases3)
  from publish_values_events [OF pv2] silent have "es2 = []"
    by simp
  with publish_values_no_events [of py cfg "bus_of w" 0 vals lv1 r2 lv2] pv2
  have "r2 = Returned" "lv2 = lv1"
    by simp_all
  with pv2 \<open>es2 = []\<close> have "publish_values py cfg (bus_of w) 0 vals lv1 = (Returned, lv1, [])"
    by simp
  from iteration_values [OF rd vals ne this] lv' show ?thesis
    by simp
qed

text \<open>
  Claim C1 says that the same value presented twice in a row is published once. With a
  tolerance of 0 a float is never within the tolerance of itself: the line
  \<open>pm 3 45.5 2.25\<close> read twice gives one publish of the status and two publishes of each of
  the two floats.
\<close>

theorem same_value_twice_counterexample:
  "sent_of (run py0 cfg_eps0 [w_line, w_line] Map.empty) =
     Some [(''nano_pk/kessel_status'', Value (PStr ''Kessel Start'')),
           (''nano_pk/temp'', Value (PFloat (Finite (91 / 2)))),
           (''nano_pk/druck'', Value (PFloat (Finite (9 / 4)))),
           (''nano_pk/temp'', Value (PFloat (Finite (91 / 2)))),
           (''nano_pk/druck'', Value (PFloat (Finite (9 / 4))))]"
  by code_simp

text \<open>
  Claim C1, amended. For a decoded line, the publishes of the loop are the messages that
  the change rule calls for against the cache as it was before the line, one index after
  the other, up to the first publish that raises; when none raises they are all of them.
  The rule for an index that has a value and an entry: publish when nothing is cached,
  or when the cached value is not unchanged, where unchanged is equality when neither
  value is a float and, when either is, an absolute difference strictly below the
  tolerance (a difference that is not below it, or values that do not convert, count as
  changed). So the first value of an index is always published. A line read twice in a
  row on a working bus publishes nothing the second time, provided each of its payloads
  is unchanged against itself; that is so for every payload that is not a float, and for
  a float exactly when the absolute value of its difference with itself is below the
  tolerance, as when the difference is 0 and 0 is below the tolerance. A value is
  published to the topic \<open>base/name\<close> of its entry, retained as the configuration says.
\<close>

theorem change_filter:
  "published (snd (snd (publish_values py cfg bus 0 vals lv))) =
     until_raised bus (line_publishes py cfg lv 0 vals) \<and>
   ((\<forall>m. bus m = Returned) \<longrightarrow>
      published (snd (snd (publish_values py cfg bus 0 vals lv))) =
        line_publishes py cfg lv 0 vals) \<and>
   should_publish py eps None p \<and>
   should_publish py eps (Some c) p =
     (if is_float c \<or> is_float p
      then (case abs_diff py c p of Some d \<Rightarrow> \<not> flt d eps | None \<Rightarrow> True)
      else c \<noteq> p) \<and>
   (read w = ReadData raw \<and> (\<forall>m. bus_of w m = Returned) \<and>
    (\<forall>vs j v q. parse_pm_line py (strip raw) = Some vs \<and> j < length vs \<and>
        vs ! j = Some v \<and> translate j v = Some q \<longrightarrow> almost_equal py (FLOAT_EPS cfg) q q) \<and>
    iteration py cfg w lv = Some (lv', es) \<longrightarrow>
      iteration py cfg w lv' = Some (lv', [TelnetRead]) \<and>
      run py cfg [w, w] lv = Some (lv', es @ [TelnetRead])) \<and>
   (\<not> is_float p \<longrightarrow> almost_equal py eps p p) \<and>
   (float_sub py x x = Finite 0 \<and> flt (Finite 0) eps \<longrightarrow>
      almost_equal py eps (PFloat x) (PFloat x)) \<and>
   value_message cfg e p =
     \<lparr> topic = MQTT_BASE cfg @ ''/'' @ (case mqtt_name e of Some n \<Rightarrow> n | None \<Rightarrow> entry_alias e),
       payload = Value p, qos = QOS cfg, retain = MQTT_RETAIN cfg \<rparr> \<and>
   almost_equal py eps (PFloat x) (PFloat x) = flt (fabs (float_sub py x x)) eps"
proof -
  obtain r lv1 es1 where pv: "publish_values py cfg bus 0 vals lv = (r, lv1, es1)"
    by (metis prod_cases3)
  from publish_values_events [OF pv]
  have c1: "published (snd (snd (publish_values py cfg bus 0 vals lv))) =
      until_raised bus (line_publishes py cfg lv 0 vals)"
    by (simp add: pv published_map_Publish)
  have c2: "(\<forall>m. bus m = Returned) \<longrightarrow>
      published (snd (snd (publish_values py cfg bus 0 vals lv))) =
        line_publishes py cfg lv 0 vals"
    by (simp add: c1 until_raised_all)
  have c3: "should_publish py eps None p"
    by (simp add: should_publish_def)
  have c4: "should_publish py eps (Some c) p =
     (if is_float c \<or> is_float p
      then (case abs_diff py c p of Some d \<Rightarrow> \<not> flt d eps | None \<Rightarrow> True)
      else c \<noteq> p)"
    by (simp add: should_publish_def unchanged_def split: option.splits)
  have c5: "read w = ReadData raw \<and> (\<forall>m. bus_of w m = Returned) \<and>
    (\<forall>vs j v q. parse_pm_line py (strip raw) = Some vs \<and> j < length vs \<and>
        vs ! j = Some v \<and> translate j v = Some q \<longrightarrow> almost_equal py (FLOAT_EPS cfg) q q) \<and>
    iteration py cfg w lv = Some (lv', es) \<longrightarrow>
      iteration py cfg w lv' = Some (lv', [TelnetRead]) \<and>
      run py cfg [w, w] lv = Some (lv', es @ [TelnetRead])"
  proof
    assume a: "read w = ReadData raw \<and> (\<forall>m. bus_of w m = Returned) \<and>
      (\<forall>vs j v q. parse_pm_line py (strip raw) = Some vs \<and> j < length vs \<and>
        vs ! j = Some v \<and> translate j v = Some q \<longrightarrow> almost_equal py (FLOAT_EPS cfg) q q) \<and>
      iteration py cfg w lv = Some (lv', es)"
    then have second: "iteration py cfg w lv' = Some (lv', [TelnetRead])"
      using iteration_twice [of w raw py cfg lv lv' es] by blast
    with a have "run py cfg [w, w] lv = Some (lv', es @ [TelnetRead])"
      by simp
    with second show "iteration py cfg w lv' = Some (lv', [TelnetRead]) \<and>
        run py cfg [w, w] lv = Some (lv', es @ [TelnetRead])"
      by blast
  qed
  have c6: "\<not> is_float p \<longrightarrow> almost_equal py eps p p"
    by (simp add: almost_equal_self)
  have c7: "float_sub py x x = Finite 0 \<and> flt (Finite 0) eps \<longrightarrow>
      almost_equal py eps (PFloat x) (PFloat x)"
    by (simp add: almost_equal_self)
  have c8: "value_message cfg e p =
     \<lparr> topic = MQTT_BASE cfg @ ''/'' @ (case mqtt_name e of Some n \<Rightarrow> n | None \<Rightarrow> entry_alias e),
       payload = Value p, qos = QOS cfg, retain = MQTT_RETAIN cfg \<rparr>"
    by (simp add: value_message_def get_mqtt_name_def)
  have c9: "almost_equal py eps (PFloat x) (PFloat x) = flt (fabs (float_sub py x x)) eps"
    by (simp add: almost_equal_def)
  show ?thesis
    by (rule conjI [OF c1 conjI [OF c2 conjI [OF c3 conjI [OF c4 conjI [OF c5 conjI [OF c6
      conjI [OF c7 conjI [OF c8 c9]]]]]]]])
qed

lemma published_append: "published (xs @ ys) = published xs @ published ys"
  by (induction xs rule: published.induct) simp_all

theorem change_filter_witness:
  "sent_of (run py0 cfg1 [w_line, w_line] Map.empty) =
     Some [(''nano_pk/kessel_status'', Value (PStr ''Kessel Start'')),
           (''nano_pk/temp'', Value (PFloat (Finite (91 / 2)))),
           (''nano_pk/druck'', Value (PFloat (Finite (9 / 4))))]"
proof -
  have s1: "sent_of (iteration py0 cfg1 w_line Map.empty) =
     Some [(''nano_pk/kessel_status'', Value (PStr ''Kessel Start'')),
           (''nano_pk/temp'', Value (PFloat (Finite (91 / 2)))),
           (''nano_pk/druck'', Value (PFloat (Finite (9 / 4))))]"
    by code_simp
  then obtain lv' es where it: "iteration py0 cfg1 w_line Map.empty = Some (lv', es)"
    and pub: "map (\<lambda>m. (topic m, payload m)) (published es) =
        [(''nano_pk/kessel_status'', Value (PStr ''Kessel Start'')),
         (''nano_pk/temp'', Value (PFloat (Finite (91 / 2)))),
         (''nano_pk/druck'', Value (PFloat (Finite (9 / 4))))]"
    by (auto simp: sent_of_def)
  have rd: "read w_line = ReadData ''pm 3 45.5 2.25''" and bus: "\<forall>m. bus_of w_line m = Returned"
    by (simp_all add: w_line_def)
  have parse: "parse_pm_line py0 (strip ''pm 3 45.5 2.25'') =
      Some [Some (PInt 3), Some (PFloat (Finite (91 / 2))), Some (PFloat (Finite (9 / 4)))]"
    by code_simp
  have t0: "translate 0 (PInt 3) = Some (PStr ''Kessel Start'')"
    by code_simp
  have eq: "almost_equal py0 (FLOAT_EPS cfg1) (PStr ''Kessel Start'') (PStr ''Kessel Start'')"
    "almost_equal py0 (FLOAT_EPS cfg1) (PFloat (Finite (91 / 2))) (PFloat (Finite (91 / 2)))"
    "almost_equal py0 (FLOAT_EPS cfg1) (PFloat (Finite (9 / 4))) (PFloat (Finite (9 / 4)))"
    by (simp_all add: almost_equal_def py0_def cfg1_def)
  have self: "\<forall>vs j v q. parse_pm_line py0 (strip ''pm 3 45.5 2.25'') = Some vs \<and> j < length vs \<and>
      vs ! j = Some v \<and> translate j v = Some q \<longrightarrow> almost_equal py0 (FLOAT_EPS cfg1) q q"
  proof (intro allI impI, elim conjE)
    fix vs j v q
    assume vs: "parse_pm_line py0 (strip ''pm 3 45.5 2.25'') = Some vs"
      and j: "j < length vs" and v: "vs ! j = Some v" and q: "translate j v = Some q"
    from vs parse have vs': "vs = [Some (PInt 3), Some (PFloat (Finite (91 / 2))),
        Some (PFloat (Finite (9 / 4)))]"
      by simp
    with j have "j = 0 \<or> j = 1 \<or> j = 2"
      by auto
    then show "almost_equal py0 (FLOAT_EPS cfg1) q q"
    proof (elim disjE)
      assume "j = 0"
      with v q vs' t0 eq(1) show ?thesis by simp
    next
      assume "j = 1"
      with v q vs' eq(2) show ?thesis by (simp add: translate_def)
    next
      assume "j = 2"
      with v q vs' eq(3) show ?thesis by (simp add: translate_def)
    qed
  qed
  from change_filter [where py = py0 and cfg = cfg1 and w = w_line and raw = "''pm 3 45.5 2.25''"
      and lv = Map.empty and lv' = lv' and es = es,
      THEN conjunct2, THEN conjunct2, THEN conjunct2, THEN conjunct2, THEN conjunct1]
    rd bus self it
  have "run py0 cfg1 [w_line, w_line] Map.empty = Some (lv', es @ [TelnetRead])"
    by blast
  then have "sent_of (run py0 cfg1 [w_line, w_line] Map.empty) =
      Some (map (\<lambda>m. (topic m, payload m)) (published es))"
    by (simp add: sent_of_def published_append)
  with pub show ?thesis
    by simp
qed

subsection \<open>A publish that raises\<close>

text \<open>
  Claim C4 says that a failure of the publish of a value is logged and dropped, that the
  loop goes on with the next value and that the telnet connection is left alone. In the
  code the publish of a value is inside the \<^verbatim>\<open>try\<close> block of the whole pass, not in
  one of its own as the publishes of the status are. On the line \<open>pm 3 45.5 2.25\<close>, when
  the publish of the temperature raises: the pressure is never published, the error is
  logged, the telnet connection is closed, \<open>offline\<close> is published, the pass sleeps and
  reconnects, and \<open>online\<close> is published.
\<close>

theorem value_publish_raise_reconnects:
  "map_option snd (iteration py0 cfg1 w_publish_raises Map.empty) =
     Some [TelnetRead,
           Publish (value_message cfg1 e_status (PStr ''Kessel Start'')),
           Publish (value_message cfg1 e_temp (PFloat (Finite (91 / 2)))),
           Log ERROR, TelnetClose Returned,
           Publish (status_message cfg1 ''offline''), Sleep 2,
           Log INFO, TelnetConnect, Log INFO,
           Publish (status_message cfg1 ''online'')]"
  by code_simp

subsection \<open>The cache\<close>






end
